theory Spec2Isabelle
  imports Main
begin

section \<open>Data model of the HlsPlayer component\<close>

text \<open>
  The component \<open>HlsPlayer\<close> binds one hls.js instance to one video element. Objects
  that the component only refers to (the video element, hls.js instances, callback functions,
  externally owned ref objects) are modelled by their identity, a natural number.
\<close>

type_synonym HTMLVideoElement = nat
type_synonym Hls = nat
type_synonym callback = nat
type_synonym RefObject = nat

text \<open>JavaScript values that occur as configuration values, attributes and rejection reasons.\<close>

datatype jsval = JUndefined | JNull | JBool bool | JNum int | JStr string

text \<open>A plain JavaScript object: a finite mapping from property names to values.\<close>

type_synonym obj = "string \<rightharpoonup> jsval"

text \<open>\<open>interface HlsPlayerRef { video: HTMLVideoElement | null; hls: Hls | null }\<close>\<close>

record HlsPlayerRef =
  video :: "HTMLVideoElement option"
  hls :: "Hls option"

text \<open>
  \<open>hlsConfig\<close> is an object; the effect's dependency list compares it by identity, the
  constructor call reads its properties. \<open>ident\<close> is the identity, \<open>entries\<close> the content.
\<close>

record HlsConfig =
  ident :: nat
  entries :: obj

text \<open>
  \<open>interface HlsPlayerProps\<close>, as destructured in the component's parameter list: the ten
  named properties and the rest object \<open>props\<close>. An optional property is an \<open>option\<close>.
\<close>

record HlsPlayerProps =
  src :: string
  hlsConfig :: "HlsConfig option"
  playerRef :: "RefObject option"
  onHlsInit :: "callback option"
  onHlsReady :: "callback option"
  onHlsError :: "callback option"
  onHlsMediaAttached :: "callback option"
  onHlsManifestParsed :: "callback option"
  onHlsLevelSwitched :: "callback option"
  autoPlay :: "bool option"
  props :: obj

text \<open>The four members of \<open>Hls.Events\<close> that the component subscribes to.\<close>

datatype HlsEvents = MEDIA_ATTACHED | MANIFEST_PARSED | ERROR | LEVEL_SWITCHED

text \<open>\<open>Hls.ErrorTypes\<close> and the part of the error payload that the component reads.\<close>

datatype ErrorTypes = NETWORK_ERROR | MEDIA_ERROR | KEY_SYSTEM_ERROR | MUX_ERROR | OTHER_ERROR

record ErrorData =
  fatal :: bool
  type :: ErrorTypes
  details :: string

text \<open>The payload of a manifest-parsed event is opaque to the component.\<close>

type_synonym ManifestParsedData = nat

text \<open>An event as hls.js emits it: the event name and its payload.\<close>

datatype emitted =
    MediaAttached
  | ManifestParsed ManifestParsedData
  | Error ErrorData
  | LevelSwitched nat

fun name :: "emitted \<Rightarrow> HlsEvents" where
  "name MediaAttached = MEDIA_ATTACHED"
| "name (ManifestParsed data) = MANIFEST_PARSED"
| "name (Error data) = ERROR"
| "name (LevelSwitched level) = LEVEL_SWITCHED"

text \<open>
  Every call that leaves the component is recorded, in order: the calls into hls.js, the calls
  on the video element, the calls of the caller's callbacks and the console output.
\<close>

datatype action =
    NewHls Hls obj
  | HlsOn Hls HlsEvents
  | AttachMedia Hls HTMLVideoElement
  | LoadSource Hls string
  | StartLoad Hls
  | RecoverMediaError Hls
  | Destroy Hls
  | VideoPlay HTMLVideoElement
  | VideoSetSrc HTMLVideoElement string
  | ConsoleError string "jsval list"
  | OnHlsInit callback Hls
  | OnHlsReady callback Hls HTMLVideoElement
  | OnHlsError callback HlsEvents ErrorData
  | OnHlsMediaAttached callback
  | OnHlsManifestParsed callback ManifestParsedData
  | OnHlsLevelSwitched callback nat

text \<open>
  The mutable state that the component's code reads and writes: the three refs of the
  component (\<open>videoRef\<close>, \<open>hlsRef\<close>, \<open>internalPlayerRef\<close>), the \<open>current\<close> field of every
  externally owned ref object, the handlers registered on each hls.js instance (together with
  the props their closure captured), the number of hls.js instances constructed so far,
  the promise rejections that nothing handled, and the record of calls.
\<close>

record state =
  videoRef :: "HTMLVideoElement option"
  hlsRef :: "Hls option"
  internalPlayerRef :: HlsPlayerRef
  playerRefs :: "RefObject \<Rightarrow> HlsPlayerRef"
  listeners :: "Hls \<Rightarrow> (HlsEvents \<times> HlsPlayerProps) list"
  instances :: nat
  unhandledRejections :: "jsval list"
  trace :: "action list"

definition emit :: "action \<Rightarrow> state \<Rightarrow> state" where
  "emit a s = s\<lparr>trace := trace s @ [a]\<rparr>"

section \<open>The hls.js and browser capability interface\<close>

text \<open>
  What the component asks of its environment: \<open>Hls.isSupported()\<close>, and
  \<open>video.canPlayType(mime)\<close>, which answers with the empty string, \<open>maybe\<close> or \<open>probably\<close>.
\<close>

record environment =
  isSupported :: bool
  canPlayType :: "string \<Rightarrow> string"

text \<open>
  \<open>new Hls(config)\<close> returns a fresh instance. \<open>hls.on(name, handler)\<close> adds a handler; the
  handlers of the component are closures over the props, so the props stand for the handler.
  \<open>hls.destroy()\<close> removes every handler of the instance, so a destroyed instance emits
  nothing. The other calls are recorded only.
\<close>

definition new_Hls :: "obj \<Rightarrow> state \<Rightarrow> Hls \<times> state" where
  "new_Hls config s =
     (let h = instances s in (h, (emit (NewHls h config) s)\<lparr>instances := Suc h\<rparr>))"

definition hls_on :: "Hls \<Rightarrow> HlsEvents \<Rightarrow> HlsPlayerProps \<Rightarrow> state \<Rightarrow> state" where
  "hls_on h event p s =
     (emit (HlsOn h event) s)\<lparr>listeners := (listeners s)(h := listeners s h @ [(event, p)])\<rparr>"

definition hls_destroy :: "Hls \<Rightarrow> state \<Rightarrow> state" where
  "hls_destroy h s = (emit (Destroy h) s)\<lparr>listeners := (listeners s)(h := [])\<rparr>"

text \<open>
  \<open>video.play()\<close> returns a promise that the environment fulfils or rejects (a browser
  rejects it when autoplay is not allowed). \<open>promise.catch(onRejected)\<close> runs \<open>onRejected\<close>
  on the reason of a rejected promise, after the running handler has returned, and yields
  a promise that is fulfilled when \<open>onRejected\<close> returns. A rejected promise that is
  dropped without a handler is reported by the environment as an unhandled rejection.
\<close>

datatype promise = Fulfilled | Rejected jsval

definition promise_catch ::
  "promise \<Rightarrow> (jsval \<Rightarrow> state \<Rightarrow> state) \<Rightarrow> state \<Rightarrow> promise \<times> state" where
  "promise_catch pr onRejected s =
     (case pr of
        Fulfilled \<Rightarrow> (Fulfilled, s)
      | Rejected error \<Rightarrow> (Fulfilled, onRejected error s))"

definition drop_promise :: "promise \<Rightarrow> state \<Rightarrow> state" where
  "drop_promise pr s =
     (case pr of
        Fulfilled \<Rightarrow> s
      | Rejected error \<Rightarrow> s\<lparr>unhandledRejections := unhandledRejections s @ [error]\<rparr>)"

section \<open>The effect that binds hls.js to the video element\<close>

text \<open>
  \<open>const destroyHls = () => { if (hlsRef.current) { hlsRef.current.destroy();
  hlsRef.current = null; } }\<close>
\<close>

definition destroyHls :: "state \<Rightarrow> state" where
  "destroyHls s =
     (case hlsRef s of
        Some h \<Rightarrow> (hls_destroy h s)\<lparr>hlsRef := None\<rparr>
      | None \<Rightarrow> s)"

text \<open>The handler of \<open>Hls.Events.MEDIA_ATTACHED\<close>: \<open>onHlsMediaAttached?.()\<close>.\<close>

definition media_attached_handler :: "HlsPlayerProps \<Rightarrow> state \<Rightarrow> state" where
  "media_attached_handler p s =
     (case onHlsMediaAttached p of
        Some cb \<Rightarrow> emit (OnHlsMediaAttached cb) s
      | None \<Rightarrow> s)"

text \<open>
  The handler of \<open>Hls.Events.MANIFEST_PARSED\<close>. \<open>played\<close> is what the environment does with
  the promise of \<open>play()\<close>. The handler of \<open>catch\<close> runs after the body of the event handler,
  and the promise that \<open>catch\<close> returns is dropped.
\<close>

definition manifest_parsed_handler ::
  "HlsPlayerProps \<Rightarrow> promise \<Rightarrow> ManifestParsedData \<Rightarrow> state \<Rightarrow> state" where
  "manifest_parsed_handler p played data s =
     (let (pending, s1) =
            (if autoPlay p = Some True then
               (case videoRef s of
                  Some v \<Rightarrow> (Some played, emit (VideoPlay v) s)
                | None \<Rightarrow> (None, s))
             else (None, s));
          s2 = (case onHlsManifestParsed p of
                  Some cb \<Rightarrow> emit (OnHlsManifestParsed cb data) s1
                | None \<Rightarrow> s1)
      in (case pending of
            Some pr \<Rightarrow>
              (let (caught, s3) =
                     promise_catch pr
                       (\<lambda>error. emit (ConsoleError ''Autoplay failed:'' [error])) s2
               in drop_promise caught s3)
          | None \<Rightarrow> s2))"

text \<open>
  The handler of \<open>Hls.Events.ERROR\<close>; \<open>h\<close> is the variable \<open>hls\<close> of the effect's closure,
  \<open>event\<close> and \<open>data\<close> are the handler's arguments.
\<close>

definition error_handler ::
  "HlsPlayerProps \<Rightarrow> Hls \<Rightarrow> HlsEvents \<Rightarrow> ErrorData \<Rightarrow> state \<Rightarrow> state" where
  "error_handler p h event data s =
     (let s1 = (if fatal data then
                  (case type data of
                     NETWORK_ERROR \<Rightarrow> emit (StartLoad h) s
                   | MEDIA_ERROR \<Rightarrow> emit (RecoverMediaError h) s
                   | _ \<Rightarrow> destroyHls s)
                else s)
      in (case onHlsError p of
            Some cb \<Rightarrow> emit (OnHlsError cb event data) s1
          | None \<Rightarrow> s1))"

text \<open>The handler of \<open>Hls.Events.LEVEL_SWITCHED\<close>: \<open>onHlsLevelSwitched?.(data.level)\<close>.\<close>

definition level_switched_handler :: "HlsPlayerProps \<Rightarrow> nat \<Rightarrow> state \<Rightarrow> state" where
  "level_switched_handler p level s =
     (case onHlsLevelSwitched p of
        Some cb \<Rightarrow> emit (OnHlsLevelSwitched cb level) s
      | None \<Rightarrow> s)"

text \<open>
  The parameter \<open>hlsConfig = {}\<close> of the component: the caller's object, and the empty
  object when the caller passes none.
\<close>

definition hlsConfig_param :: "HlsPlayerProps \<Rightarrow> obj" where
  "hlsConfig_param p = (case hlsConfig p of Some c \<Rightarrow> entries c | None \<Rightarrow> Map.empty)"

text \<open>
  \<open>initHls\<close>. The configuration is the object literal
  \<open>{ enableWorker: true, lowLatencyMode: false, ...hlsConfig }\<close>: a spread property
  replaces an earlier one of the same name.
\<close>

definition initHls :: "HlsPlayerProps \<Rightarrow> environment \<Rightarrow> state \<Rightarrow> state" where
  "initHls p env s =
     (case videoRef s of
        None \<Rightarrow> s
      | Some v \<Rightarrow>
          if isSupported env then
            (let (h, s1) =
                   new_Hls
                     ([''enableWorker'' \<mapsto> JBool True, ''lowLatencyMode'' \<mapsto> JBool False]
                        ++ hlsConfig_param p) s;
                 s2 = s1\<lparr>hlsRef := Some h\<rparr>;
                 s3 = (case playerRef p of
                         Some r \<Rightarrow>
                           s2\<lparr>playerRefs := (playerRefs s2)(r := \<lparr>video = Some v, hls = Some h\<rparr>)\<rparr>
                       | None \<Rightarrow>
                           s2\<lparr>internalPlayerRef := \<lparr>video = Some v, hls = Some h\<rparr>\<rparr>);
                 s4 = hls_on h MEDIA_ATTACHED p s3;
                 s5 = hls_on h MANIFEST_PARSED p s4;
                 s6 = hls_on h ERROR p s5;
                 s7 = hls_on h LEVEL_SWITCHED p s6;
                 s8 = emit (AttachMedia h v) s7;
                 s9 = emit (LoadSource h (src p)) s8;
                 s10 = (case onHlsInit p of Some cb \<Rightarrow> emit (OnHlsInit cb h) s9 | None \<Rightarrow> s9)
             in (case onHlsReady p of Some cb \<Rightarrow> emit (OnHlsReady cb h v) s10 | None \<Rightarrow> s10))
          else if canPlayType env ''application/vnd.apple.mpegurl'' \<noteq> [] then
            emit (VideoSetSrc v (src p)) s
          else
            emit (ConsoleError ''HLS is not supported in this browser'' []) s)"

text \<open>The cleanup function that the effect returns.\<close>

definition cleanup :: "HlsPlayerProps \<Rightarrow> state \<Rightarrow> state" where
  "cleanup p s =
     (let s1 = destroyHls s
      in (case playerRef p of
            Some r \<Rightarrow> s1\<lparr>playerRefs := (playerRefs s1)(r := \<lparr>video = None, hls = None\<rparr>)\<rparr>
          | None \<Rightarrow> s1\<lparr>internalPlayerRef := \<lparr>video = None, hls = None\<rparr>\<rparr>))"

section \<open>The effect that follows the video ref\<close>

definition video_ref_effect :: "HlsPlayerProps \<Rightarrow> state \<Rightarrow> state" where
  "video_ref_effect p s =
     (case videoRef s of
        Some v \<Rightarrow>
          (case playerRef p of
             Some r \<Rightarrow> s\<lparr>playerRefs := (playerRefs s)(r := (playerRefs s r)\<lparr>video := Some v\<rparr>)\<rparr>
           | None \<Rightarrow> s\<lparr>internalPlayerRef := (internalPlayerRef s)\<lparr>video := Some v\<rparr>\<rparr>)
      | None \<Rightarrow> s)"

section \<open>The rendered element\<close>

text \<open>
  \<open><video ref={videoRef} controls={true} {...props} />\<close>: the attributes are \<open>controls\<close>
  followed by the spread of the rest object. The \<open>ref\<close> is what makes \<open>videoRef.current\<close>
  the element once it is mounted.
\<close>

record element =
  tag :: string
  attributes :: obj

definition HlsPlayer :: "HlsPlayerProps \<Rightarrow> element" where
  "HlsPlayer p = \<lparr>tag = ''video'', attributes = [''controls'' \<mapsto> JBool True] ++ props p\<rparr>"

section \<open>Events and the life cycle of the component\<close>

text \<open>hls.js calls the handlers registered for the event's name, each with name and payload.\<close>

fun handler :: "HlsPlayerProps \<Rightarrow> Hls \<Rightarrow> promise \<Rightarrow> emitted \<Rightarrow> state \<Rightarrow> state" where
  "handler p h played MediaAttached s = media_attached_handler p s"
| "handler p h played (ManifestParsed data) s = manifest_parsed_handler p played data s"
| "handler p h played (Error data) s = error_handler p h ERROR data s"
| "handler p h played (LevelSwitched level) s = level_switched_handler p level s"

definition trigger :: "Hls \<Rightarrow> emitted \<Rightarrow> promise \<Rightarrow> state \<Rightarrow> state" where
  "trigger h ev played s =
     fold (\<lambda>(event, p). handler p h played ev)
       (filter (\<lambda>(event, p). event = name ev) (listeners s h)) s"

text \<open>
  The dependency list of the binding effect, compared entry by entry as React does
  (\<open>Object.is\<close>): strings and flags by value, functions and ref objects by identity, the
  configuration object by identity. When the caller passes no configuration, the default
  \<open>{}\<close> of the parameter list is a new object in every render.
\<close>

definition hlsConfig_changed :: "HlsConfig option \<Rightarrow> HlsConfig option \<Rightarrow> bool" where
  "hlsConfig_changed c c' =
     (case (c, c') of
        (Some a, Some b) \<Rightarrow> ident a \<noteq> ident b
      | _ \<Rightarrow> True)"

definition deps_changed :: "HlsPlayerProps \<Rightarrow> HlsPlayerProps \<Rightarrow> bool" where
  "deps_changed p p' \<longleftrightarrow>
     src p \<noteq> src p' \<or> autoPlay p \<noteq> autoPlay p' \<or> hlsConfig_changed (hlsConfig p) (hlsConfig p')
     \<or> onHlsInit p \<noteq> onHlsInit p' \<or> onHlsReady p \<noteq> onHlsReady p'
     \<or> onHlsError p \<noteq> onHlsError p' \<or> onHlsMediaAttached p \<noteq> onHlsMediaAttached p'
     \<or> onHlsManifestParsed p \<noteq> onHlsManifestParsed p'
     \<or> onHlsLevelSwitched p \<noteq> onHlsLevelSwitched p' \<or> playerRef p \<noteq> playerRef p'"

text \<open>
  A component instance: its state and, while it is mounted, the props that the closure of
  the binding effect captured (those of the render in which the effect last ran) together
  with the value of \<open>videoRef.current\<close> that the last render saw, on which the second
  effect depends.
\<close>

record component =
  st :: state
  mounted :: "(HlsPlayerProps \<times> HTMLVideoElement option) option"

text \<open>
  What React does with the component. Mounting creates the refs with their initial values,
  attaches the element to \<open>videoRef\<close> and runs both effects. An update compares the
  dependencies of the new render with the previous ones (those of the closure, which are
  the same as long as the effect did not run again); when one changed, it runs the cleanup
  of the old closure and then the binding effect with the new props; then it runs the second
  effect, when one of that effect's dependencies changed. Unmounting runs the cleanup.
  \<open>Emit\<close> is hls.js emitting an event on an instance.
\<close>

datatype transition =
    Mount HlsPlayerProps HTMLVideoElement environment
  | Update HlsPlayerProps environment
  | Unmount
  | Emit Hls emitted promise

fun step :: "transition \<Rightarrow> component \<Rightarrow> component" where
  "step (Mount p v env) c =
     (case mounted c of
        Some m \<Rightarrow> c
      | None \<Rightarrow>
          (let s0 = (st c)\<lparr>videoRef := Some v, hlsRef := None,
                           internalPlayerRef := \<lparr>video = None, hls = None\<rparr>\<rparr>;
               s1 = initHls p env s0;
               s2 = video_ref_effect p s1
           in \<lparr>st = s2, mounted = Some (p, None)\<rparr>))"
| "step (Update p' env) c =
     (case mounted c of
        None \<Rightarrow> c
      | Some (p, seen) \<Rightarrow>
          (let s = st c;
               s1 = (if deps_changed p p' then initHls p' env (cleanup p s) else s);
               s2 = (if seen \<noteq> videoRef s \<or> playerRef p \<noteq> playerRef p'
                     then video_ref_effect p' s1 else s1)
           in \<lparr>st = s2, mounted = Some (if deps_changed p p' then p' else p, videoRef s)\<rparr>))"
| "step Unmount c =
     (case mounted c of
        None \<Rightarrow> c
      | Some (p, seen) \<Rightarrow> \<lparr>st = (cleanup p (st c))\<lparr>videoRef := None\<rparr>, mounted = None\<rparr>)"
| "step (Emit h ev played) c = c\<lparr>st := trigger h ev played (st c)\<rparr>"

definition initial :: "(RefObject \<Rightarrow> HlsPlayerRef) \<Rightarrow> component" where
  "initial refs =
     \<lparr>st = \<lparr>videoRef = None, hlsRef = None, internalPlayerRef = \<lparr>video = None, hls = None\<rparr>,
            playerRefs = refs, listeners = (\<lambda>h. []), instances = 0,
            unhandledRejections = [], trace = []\<rparr>,
      mounted = None\<rparr>"

definition run :: "transition list \<Rightarrow> component \<Rightarrow> component" where
  "run ts c = fold step ts c"

text \<open>
  The handle that calling code observes: the \<open>current\<close> field of the ref object it passed
  as \<open>playerRef\<close>, and the internal one when it passed none.
\<close>

definition handle :: "HlsPlayerProps \<Rightarrow> state \<Rightarrow> HlsPlayerRef" where
  "handle p s = (case playerRef p of Some r \<Rightarrow> playerRefs s r | None \<Rightarrow> internalPlayerRef s)"

text \<open>The handlers that \<open>initHls\<close> registers on a new instance, in order.\<close>

definition subscriptions :: "HlsPlayerProps \<Rightarrow> (HlsEvents \<times> HlsPlayerProps) list" where
  "subscriptions p = [(MEDIA_ATTACHED, p), (MANIFEST_PARSED, p), (ERROR, p), (LEVEL_SWITCHED, p)]"

text \<open>
  The hls.js instances that are alive after a record of calls: constructed and not
  destroyed since, in the order of construction.
\<close>

fun live_step :: "action \<Rightarrow> Hls list \<Rightarrow> Hls list" where
  "live_step (NewHls h config) L = L @ [h]"
| "live_step (Destroy h) L = removeAll h L"
| "live_step a L = L"

definition live :: "action list \<Rightarrow> Hls list" where
  "live tr = fold live_step tr []"

text \<open>
  \<open>bounded L tr\<close>: starting with the instances \<open>L\<close> alive, at most one instance is alive
  before and after every call of \<open>tr\<close>.
\<close>

fun bounded :: "Hls list \<Rightarrow> action list \<Rightarrow> bool" where
  "bounded L [] = (length L \<le> 1)"
| "bounded L (a # tr) = (length L \<le> 1 \<and> bounded (live_step a L) tr)"

section \<open>Example inputs\<close>

definition example_props :: "string \<Rightarrow> HlsPlayerProps" where
  "example_props url =
     \<lparr>src = url, hlsConfig = None, playerRef = None, onHlsInit = Some 1, onHlsReady = Some 2,
      onHlsError = Some 3, onHlsMediaAttached = Some 4, onHlsManifestParsed = Some 5,
      onHlsLevelSwitched = Some 6, autoPlay = Some True, props = Map.empty\<rparr>"

definition software :: environment where
  "software = \<lparr>isSupported = True, canPlayType = (\<lambda>mime. [])\<rparr>"

definition native :: environment where
  "native = \<lparr>isSupported = False, canPlayType = (\<lambda>mime. ''maybe'')\<rparr>"

definition unsupported :: environment where
  "unsupported = \<lparr>isSupported = False, canPlayType = (\<lambda>mime. [])\<rparr>"

definition no_refs :: "RefObject \<Rightarrow> HlsPlayerRef" where
  "no_refs r = \<lparr>video = None, hls = None\<rparr>"

definition readme_config :: HlsConfig where
  "readme_config =
     \<lparr>ident = 1,
      entries = [''enableWorker'' \<mapsto> JBool True, ''lowLatencyMode'' \<mapsto> JBool True,
                 ''backBufferLength'' \<mapsto> JNum 90]\<rparr>"

definition fatal_network :: ErrorData where
  "fatal_network = \<lparr>fatal = True, type = NETWORK_ERROR, details = ''manifestLoadError''\<rparr>"

definition fatal_other :: ErrorData where
  "fatal_other = \<lparr>fatal = True, type = OTHER_ERROR, details = ''internalException''\<rparr>"

text \<open>The component mounted with source \<open>a.m3u8\<close> on video element 7, hls.js supported.\<close>

definition mounted_example :: component where
  "mounted_example = run [Mount (example_props ''a.m3u8'') 7 software] (initial no_refs)"

text \<open>The refs as created, the video element 7 attached, no effect run yet.\<close>

definition attached_example :: state where
  "attached_example = (st (initial no_refs))\<lparr>videoRef := Some 7\<rparr>"

text \<open>Props with the configuration of the README's example, and props that turn controls off.\<close>

definition readme_props :: HlsPlayerProps where
  "readme_props = (example_props ''a.m3u8'')\<lparr>hlsConfig := Some readme_config\<rparr>"

definition controls_off_props :: HlsPlayerProps where
  "controls_off_props =
     (example_props ''a.m3u8'')
       \<lparr>props := [''controls'' \<mapsto> JBool False, ''width'' \<mapsto> JStr ''100%'']\<rparr>"

text \<open>
  The invariant of the binding. At most one instance is alive at every point of the record
  of calls; the instance alive at the end is the one stored in \<open>hlsRef\<close>; no other
  instance has handlers; and the stored instance has the handlers that \<open>initHls\<close>
  registered, closed over \<open>m\<close>, the props of the binding effect's closure.
\<close>

definition consistent :: "state \<Rightarrow> HlsPlayerProps option \<Rightarrow> bool" where
  "consistent s m \<longleftrightarrow>
     bounded [] (trace s)
     \<and> live (trace s) = (case hlsRef s of None \<Rightarrow> [] | Some h \<Rightarrow> [h])
     \<and> (\<forall>h. hlsRef s \<noteq> Some h \<longrightarrow> listeners s h = [])
     \<and> (\<forall>h. hlsRef s = Some h \<longrightarrow> (\<exists>p. m = Some p \<and> listeners s h = subscriptions p))"

definition inv :: "component \<Rightarrow> bool" where
  "inv c \<longleftrightarrow> consistent (st c) (map_option fst (mounted c))"

section \<open>Evaluation of the example inputs\<close>

lemmas model_defs =
  run_def initial_def initHls_def hlsConfig_param_def new_Hls_def hls_on_def emit_def
  cleanup_def destroyHls_def hls_destroy_def video_ref_effect_def deps_changed_def
  hlsConfig_changed_def trigger_def error_handler_def manifest_parsed_handler_def
  promise_catch_def drop_promise_def media_attached_handler_def level_switched_handler_def
  handle_def HlsPlayer_def Let_def

lemmas example_defs =
  attached_example_def readme_props_def controls_off_props_def
  example_props_def software_def native_def unsupported_def no_refs_def readme_config_def
  fatal_network_def fatal_other_def mounted_example_def

section \<open>What each operation changes\<close>

lemma emit_fields:
  "videoRef (emit a s) = videoRef s"
  "hlsRef (emit a s) = hlsRef s"
  "internalPlayerRef (emit a s) = internalPlayerRef s"
  "playerRefs (emit a s) = playerRefs s"
  "listeners (emit a s) = listeners s"
  "instances (emit a s) = instances s"
  "unhandledRejections (emit a s) = unhandledRejections s"
  "trace (emit a s) = trace s @ [a]"
  by (simp_all add: emit_def)

lemma hls_on_fields:
  "videoRef (hls_on h event p s) = videoRef s"
  "hlsRef (hls_on h event p s) = hlsRef s"
  "internalPlayerRef (hls_on h event p s) = internalPlayerRef s"
  "playerRefs (hls_on h event p s) = playerRefs s"
  "listeners (hls_on h event p s) = (listeners s)(h := listeners s h @ [(event, p)])"
  "instances (hls_on h event p s) = instances s"
  "unhandledRejections (hls_on h event p s) = unhandledRejections s"
  "trace (hls_on h event p s) = trace s @ [HlsOn h event]"
  by (simp_all add: hls_on_def emit_def)

lemma new_Hls_fields:
  "fst (new_Hls config s) = instances s"
  "videoRef (snd (new_Hls config s)) = videoRef s"
  "hlsRef (snd (new_Hls config s)) = hlsRef s"
  "internalPlayerRef (snd (new_Hls config s)) = internalPlayerRef s"
  "playerRefs (snd (new_Hls config s)) = playerRefs s"
  "listeners (snd (new_Hls config s)) = listeners s"
  "instances (snd (new_Hls config s)) = Suc (instances s)"
  "unhandledRejections (snd (new_Hls config s)) = unhandledRejections s"
  "trace (snd (new_Hls config s)) = trace s @ [NewHls (instances s) config]"
  by (simp_all add: new_Hls_def emit_def Let_def)

lemma optional_call_fields:
  "videoRef (case f of Some cb \<Rightarrow> emit (call cb) s | None \<Rightarrow> s) = videoRef s"
  "hlsRef (case f of Some cb \<Rightarrow> emit (call cb) s | None \<Rightarrow> s) = hlsRef s"
  "internalPlayerRef (case f of Some cb \<Rightarrow> emit (call cb) s | None \<Rightarrow> s) = internalPlayerRef s"
  "playerRefs (case f of Some cb \<Rightarrow> emit (call cb) s | None \<Rightarrow> s) = playerRefs s"
  "listeners (case f of Some cb \<Rightarrow> emit (call cb) s | None \<Rightarrow> s) = listeners s"
  "instances (case f of Some cb \<Rightarrow> emit (call cb) s | None \<Rightarrow> s) = instances s"
  "unhandledRejections (case f of Some cb \<Rightarrow> emit (call cb) s | None \<Rightarrow> s) =
     unhandledRejections s"
  "trace (case f of Some cb \<Rightarrow> emit (call cb) s | None \<Rightarrow> s) =
     trace s @ (case f of Some cb \<Rightarrow> [call cb] | None \<Rightarrow> [])"
  by (cases f; simp add: emit_def)+

lemma write_handle_fields:
  "videoRef (case r of Some x \<Rightarrow> s\<lparr>playerRefs := F x\<rparr> | None \<Rightarrow> s\<lparr>internalPlayerRef := G\<rparr>)
     = videoRef s"
  "hlsRef (case r of Some x \<Rightarrow> s\<lparr>playerRefs := F x\<rparr> | None \<Rightarrow> s\<lparr>internalPlayerRef := G\<rparr>)
     = hlsRef s"
  "listeners (case r of Some x \<Rightarrow> s\<lparr>playerRefs := F x\<rparr> | None \<Rightarrow> s\<lparr>internalPlayerRef := G\<rparr>)
     = listeners s"
  "instances (case r of Some x \<Rightarrow> s\<lparr>playerRefs := F x\<rparr> | None \<Rightarrow> s\<lparr>internalPlayerRef := G\<rparr>)
     = instances s"
  "unhandledRejections
     (case r of Some x \<Rightarrow> s\<lparr>playerRefs := F x\<rparr> | None \<Rightarrow> s\<lparr>internalPlayerRef := G\<rparr>)
     = unhandledRejections s"
  "trace (case r of Some x \<Rightarrow> s\<lparr>playerRefs := F x\<rparr> | None \<Rightarrow> s\<lparr>internalPlayerRef := G\<rparr>)
     = trace s"
  by (cases r; simp)+

lemma hlsRef_destroyHls: "hlsRef (destroyHls s) = None"
  by (simp add: destroyHls_def hls_destroy_def emit_def split: option.split)

lemma destroyHls_absent: "hlsRef s = None \<Longrightarrow> destroyHls s = s"
  by (simp add: destroyHls_def)

lemma trace_destroyHls:
  "trace (destroyHls s) = trace s @ (case hlsRef s of Some h \<Rightarrow> [Destroy h] | None \<Rightarrow> [])"
  by (simp add: destroyHls_def hls_destroy_def emit_def split: option.split)

lemma destroyHls_fields:
  "videoRef (destroyHls s) = videoRef s"
  "internalPlayerRef (destroyHls s) = internalPlayerRef s"
  "playerRefs (destroyHls s) = playerRefs s"
  "instances (destroyHls s) = instances s"
  "unhandledRejections (destroyHls s) = unhandledRejections s"
  "listeners (destroyHls s) =
     (case hlsRef s of Some h \<Rightarrow> (listeners s)(h := []) | None \<Rightarrow> listeners s)"
  by (simp_all add: destroyHls_def hls_destroy_def emit_def split: option.split)

lemma trace_cleanup:
  "trace (cleanup p s) = trace s @ (case hlsRef s of Some h \<Rightarrow> [Destroy h] | None \<Rightarrow> [])"
  by (simp add: cleanup_def Let_def write_handle_fields trace_destroyHls)

lemma hlsRef_cleanup: "hlsRef (cleanup p s) = None"
  by (simp add: cleanup_def Let_def write_handle_fields hlsRef_destroyHls)

lemma cleanup_fields:
  "videoRef (cleanup p s) = videoRef s"
  "instances (cleanup p s) = instances s"
  "unhandledRejections (cleanup p s) = unhandledRejections s"
  "listeners (cleanup p s) =
     (case hlsRef s of Some h \<Rightarrow> (listeners s)(h := []) | None \<Rightarrow> listeners s)"
  by (simp_all add: cleanup_def Let_def write_handle_fields destroyHls_fields)

lemma video_ref_effect_fields:
  "videoRef (video_ref_effect p s) = videoRef s"
  "hlsRef (video_ref_effect p s) = hlsRef s"
  "listeners (video_ref_effect p s) = listeners s"
  "instances (video_ref_effect p s) = instances s"
  "unhandledRejections (video_ref_effect p s) = unhandledRejections s"
  "trace (video_ref_effect p s) = trace s"
  by (simp_all add: video_ref_effect_def write_handle_fields split: option.split)

text \<open>The software branch of \<open>initHls\<close>, field by field.\<close>

lemma initHls_software:
  assumes "videoRef s = Some v" and "isSupported env"
  shows "trace (initHls p env s) =
     trace s
     @ [NewHls (instances s)
          ([''enableWorker'' \<mapsto> JBool True, ''lowLatencyMode'' \<mapsto> JBool False]
             ++ hlsConfig_param p),
        HlsOn (instances s) MEDIA_ATTACHED, HlsOn (instances s) MANIFEST_PARSED,
        HlsOn (instances s) ERROR, HlsOn (instances s) LEVEL_SWITCHED,
        AttachMedia (instances s) v, LoadSource (instances s) (src p)]
     @ (case onHlsInit p of Some cb \<Rightarrow> [OnHlsInit cb (instances s)] | None \<Rightarrow> [])
     @ (case onHlsReady p of Some cb \<Rightarrow> [OnHlsReady cb (instances s) v] | None \<Rightarrow> [])"
    and "hlsRef (initHls p env s) = Some (instances s)"
    and "listeners (initHls p env s) =
           (listeners s)(instances s := listeners s (instances s) @ subscriptions p)"
    and "videoRef (initHls p env s) = videoRef s"
    and "instances (initHls p env s) = Suc (instances s)"
    and "unhandledRejections (initHls p env s) = unhandledRejections s"
  using assms
  by (simp_all add: initHls_def Let_def case_prod_beta optional_call_fields write_handle_fields
        emit_fields hls_on_fields new_Hls_fields subscriptions_def cong: option.case_cong)

lemma initHls_software_handle:
  assumes "videoRef s = Some v" and "isSupported env"
  shows "handle p (initHls p env s) = \<lparr>video = Some v, hls = Some (instances s)\<rparr>"
proof -
  have "playerRefs (initHls p env s) =
          (case playerRef p of
             Some r \<Rightarrow> (playerRefs s)(r := \<lparr>video = Some v, hls = Some (instances s)\<rparr>)
           | None \<Rightarrow> playerRefs s)"
    and "internalPlayerRef (initHls p env s) =
          (case playerRef p of
             Some r \<Rightarrow> internalPlayerRef s
           | None \<Rightarrow> \<lparr>video = Some v, hls = Some (instances s)\<rparr>)"
    using assms
    by (cases "playerRef p";
        simp add: initHls_def Let_def case_prod_beta optional_call_fields emit_fields
          hls_on_fields new_Hls_fields)+
  then show ?thesis
    by (simp add: handle_def split: option.split)
qed

lemma initHls_without_software:
  assumes "\<not> isSupported env" and "videoRef s = Some v"
  shows "initHls p env s =
     emit (if canPlayType env ''application/vnd.apple.mpegurl'' \<noteq> []
           then VideoSetSrc v (src p)
           else ConsoleError ''HLS is not supported in this browser'' []) s"
  using assms by (simp add: initHls_def)

lemma initHls_no_destroy:
  "\<exists>seg. trace (initHls p env s) = trace s @ seg \<and> (\<forall>h. Destroy h \<notin> set seg)"
proof (cases "videoRef s")
  case None
  then show ?thesis
    by (simp add: initHls_def)
next
  case (Some v)
  show ?thesis
  proof (cases "isSupported env")
    case True
    show ?thesis
      unfolding initHls_software(1) [OF Some True]
      by (auto split: option.split)
  next
    case False
    show ?thesis
      unfolding initHls_without_software [OF False Some]
      by (simp add: emit_fields)
  qed
qed

lemma error_handler_fields:
  "trace (error_handler p h event data s) =
     trace s
     @ (if fatal data then
          (case type data of
             NETWORK_ERROR \<Rightarrow> [StartLoad h]
           | MEDIA_ERROR \<Rightarrow> [RecoverMediaError h]
           | _ \<Rightarrow> (case hlsRef s of Some h' \<Rightarrow> [Destroy h'] | None \<Rightarrow> []))
        else [])
     @ (case onHlsError p of Some cb \<Rightarrow> [OnHlsError cb event data] | None \<Rightarrow> [])"
  "playerRefs (error_handler p h event data s) = playerRefs s"
  "internalPlayerRef (error_handler p h event data s) = internalPlayerRef s"
  by (simp_all add: error_handler_def Let_def optional_call_fields emit_fields trace_destroyHls
        destroyHls_fields split: ErrorTypes.split)

lemma manifest_parsed_handler_rejected:
  assumes "autoPlay p = Some True" and "videoRef s = Some v"
  shows "trace (manifest_parsed_handler p (Rejected error) data s) =
           trace s @ [VideoPlay v]
           @ (case onHlsManifestParsed p of
                Some cb \<Rightarrow> [OnHlsManifestParsed cb data] | None \<Rightarrow> [])
           @ [ConsoleError ''Autoplay failed:'' [error]]"
    and "unhandledRejections (manifest_parsed_handler p (Rejected error) data s) =
           unhandledRejections s"
  using assms
  by (simp_all add: manifest_parsed_handler_def promise_catch_def drop_promise_def
        optional_call_fields emit_fields)

section \<open>The invariant holds in every reachable state\<close>

lemma bounded_length: "bounded L tr \<Longrightarrow> length L \<le> 1"
  by (cases tr) simp_all

lemma bounded_append:
  "bounded L (a @ b) \<longleftrightarrow> bounded L a \<and> bounded (fold live_step a L) b"
  by (induction a arbitrary: L) (auto dest: bounded_length)

lemma bounded_take:
  "bounded L tr \<longleftrightarrow> (\<forall>n. length (fold live_step (take n tr) L) \<le> 1)"
proof (induction tr arbitrary: L)
  case Nil
  then show ?case by simp
next
  case (Cons a tr)
  show ?case
  proof
    assume b: "bounded L (a # tr)"
    show "\<forall>n. length (fold live_step (take n (a # tr)) L) \<le> 1"
    proof
      fix n
      show "length (fold live_step (take n (a # tr)) L) \<le> 1"
        using b Cons.IH [of "live_step a L"] by (cases n) simp_all
    qed
  next
    assume r: "\<forall>n. length (fold live_step (take n (a # tr)) L) \<le> 1"
    have "length L \<le> 1"
      using r [rule_format, of 0] by simp
    moreover have "\<forall>n. length (fold live_step (take n tr) (live_step a L)) \<le> 1"
    proof
      fix n
      show "length (fold live_step (take n tr) (live_step a L)) \<le> 1"
        using r [rule_format, of "Suc n"] by simp
    qed
    ultimately show "bounded L (a # tr)"
      using Cons.IH by simp
  qed
qed

lemma live_append: "live (tr @ seg) = fold live_step seg (live tr)"
  by (simp add: live_def)

lemma bounded_trace_append:
  "bounded [] (tr @ seg) \<longleftrightarrow> bounded [] tr \<and> bounded (live tr) seg"
  by (simp add: bounded_append live_def)

lemma consistent_destroyHls: "consistent s m \<Longrightarrow> consistent (destroyHls s) m'"
  by (auto simp: consistent_def destroyHls_def hls_destroy_def emit_def bounded_trace_append
        live_append split: option.splits)

lemma consistent_cleanup: "consistent s m \<Longrightarrow> consistent (cleanup p s) m'"
  using consistent_destroyHls [of s m m']
  by (simp add: consistent_def trace_cleanup hlsRef_cleanup cleanup_fields hlsRef_destroyHls
        trace_destroyHls destroyHls_fields)

lemma consistent_emit:
  "consistent s m \<Longrightarrow> live_step a = (\<lambda>L. L) \<Longrightarrow> consistent (emit a s) m"
  by (auto simp: consistent_def emit_def bounded_trace_append live_append split: option.splits)

lemma consistent_initHls:
  assumes "consistent s m" and "hlsRef s = None"
  shows "consistent (initHls p env s) (Some p)"
proof (cases "videoRef s")
  case None
  then show ?thesis
    using assms by (simp add: initHls_def consistent_def)
next
  case (Some v)
  have e: "listeners s = (\<lambda>h. [])" and l: "live (trace s) = []" and b: "bounded [] (trace s)"
    using assms by (auto simp: consistent_def)
  show ?thesis
  proof (cases "isSupported env")
    case True
    show ?thesis
      unfolding consistent_def initHls_software [OF Some True]
      using e l b l [unfolded live_def]
      by (simp add: bounded_trace_append live_append bounded_append split: option.split)
  next
    case False
    show ?thesis
      unfolding initHls_without_software [OF False Some]
      using assms
      by (simp add: consistent_def emit_fields bounded_trace_append live_append)
  qed
qed

lemma consistent_video_ref_effect: "consistent s m \<Longrightarrow> consistent (video_ref_effect p s) m"
  by (simp add: consistent_def video_ref_effect_fields)

lemma consistent_handler: "consistent s m \<Longrightarrow> consistent (handler p h played ev s) m"
proof (cases ev)
  case MediaAttached
  assume "consistent s m"
  then show ?thesis
    using MediaAttached
    by (auto simp: media_attached_handler_def consistent_emit ext split: option.splits)
next
  case (ManifestParsed data)
  assume "consistent s m"
  then show ?thesis
    using ManifestParsed
    by (cases played)
       (auto simp: manifest_parsed_handler_def promise_catch_def drop_promise_def Let_def
          consistent_emit ext split: option.splits)
next
  case (Error data)
  assume "consistent s m"
  then show ?thesis
    using Error consistent_destroyHls [of s m m]
    by (auto simp: error_handler_def Let_def consistent_emit ext
          split: option.splits ErrorTypes.splits)
next
  case (LevelSwitched level)
  assume "consistent s m"
  then show ?thesis
    using LevelSwitched
    by (auto simp: level_switched_handler_def consistent_emit ext split: option.splits)
qed

lemma consistent_fold_handler:
  "consistent s m \<Longrightarrow> consistent (fold (\<lambda>(event, p). handler p h played ev) hs s) m"
  by (induction hs arbitrary: s) (auto simp: consistent_handler)

lemma consistent_trigger: "consistent s m \<Longrightarrow> consistent (trigger h ev played s) m"
  by (simp add: trigger_def consistent_fold_handler)

lemma consistent_refs:
  "consistent s m \<Longrightarrow> consistent (s\<lparr>videoRef := x\<rparr>) m"
  "consistent s m \<Longrightarrow> consistent (s\<lparr>internalPlayerRef := y\<rparr>) m"
  by (auto simp: consistent_def)

lemma inv_initial: "inv (initial refs)"
  by (simp add: inv_def consistent_def initial_def live_def)

lemma inv_step: "inv c \<Longrightarrow> inv (step t c)"
proof (cases t)
  case (Mount p v env)
  assume i: "inv c"
  show ?thesis
  proof (cases "mounted c")
    case None
    then have h: "hlsRef (st c) = None"
      using i by (cases "hlsRef (st c)") (auto simp: inv_def consistent_def)
    have "consistent ((st c)\<lparr>videoRef := Some v, hlsRef := None,
                    internalPlayerRef := \<lparr>video = None, hls = None\<rparr>\<rparr>) None"
      using i None h by (auto simp: inv_def consistent_def)
    then have "consistent (initHls p env ((st c)\<lparr>videoRef := Some v, hlsRef := None,
                    internalPlayerRef := \<lparr>video = None, hls = None\<rparr>\<rparr>)) (Some p)"
      by (rule consistent_initHls) simp
    then show ?thesis
      using Mount None by (simp add: inv_def Let_def consistent_video_ref_effect)
  next
    case (Some a)
    then show ?thesis
      using i Mount by simp
  qed
next
  case (Update p' env)
  assume i: "inv c"
  show ?thesis
  proof (cases "mounted c")
    case None
    then show ?thesis
      using i Update by simp
  next
    case (Some a)
    obtain p seen where a: "a = (p, seen)"
      by (cases a)
    have s: "consistent (st c) (Some p)"
      using i Some a by (simp add: inv_def)
    have "consistent (initHls p' env (cleanup p (st c))) (Some p')"
      using consistent_cleanup [OF s, of p None]
      by (rule consistent_initHls) (rule hlsRef_cleanup)
    then show ?thesis
      using Update Some a s by (simp add: inv_def Let_def consistent_video_ref_effect)
  qed
next
  case Unmount
  assume i: "inv c"
  show ?thesis
  proof (cases "mounted c")
    case None
    then show ?thesis
      using i Unmount by simp
  next
    case (Some a)
    obtain p seen where a: "a = (p, seen)"
      by (cases a)
    have s: "consistent (st c) (Some p)"
      using i Some a by (simp add: inv_def)
    show ?thesis
      using Unmount Some a consistent_cleanup [OF s, of p None]
      by (simp add: inv_def consistent_refs)
  qed
next
  case (Emit h ev played)
  assume "inv c"
  then show ?thesis
    using Emit by (simp add: inv_def consistent_trigger)
qed

lemma inv_run: "inv c \<Longrightarrow> inv (run ts c)"
  unfolding run_def by (induction ts arbitrary: c) (simp_all add: inv_step)

lemma inv_reachable: "inv (run ts (initial refs))"
  by (rule inv_run) (rule inv_initial)

text \<open>
  In a reachable state, an event on the stored instance runs exactly one handler: the one
  that \<open>initHls\<close> registered for the event's name, closed over the props of the binding.
\<close>

lemma trigger_subscriptions:
  assumes "listeners s h = subscriptions p"
  shows "trigger h ev played s = handler p h played ev s"
  using assms by (cases ev) (simp_all add: trigger_def subscriptions_def)

lemma trigger_reachable:
  assumes "c = run ts (initial refs)" and "hlsRef (st c) = Some h"
  shows "\<exists>p seen. mounted c = Some (p, seen)
           \<and> trigger h ev played (st c) = handler p h played ev (st c)"
proof -
  have "inv c"
    using assms(1) inv_reachable by simp
  then obtain p where p: "map_option fst (mounted c) = Some p"
    and l: "listeners (st c) h = subscriptions p"
    using assms(2) by (auto simp: inv_def consistent_def)
  from p obtain seen where "mounted c = Some (p, seen)"
    by (cases "mounted c") auto
  then show ?thesis
    using trigger_subscriptions [OF l] by simp
qed

section \<open>At most one live instance per binding\<close>

lemma live_take_reachable:
  "length (live (take n (trace (st (run ts (initial refs)))))) \<le> 1"
proof -
  have "bounded [] (trace (st (run ts (initial refs))))"
    using inv_reachable [of ts refs] by (simp add: inv_def consistent_def)
  then show ?thesis
    by (simp add: bounded_take live_def)
qed

lemma trace_rebind:
  assumes "hlsRef s = Some h"
  shows "\<exists>rest. trace (initHls p' env (cleanup p s)) = trace s @ Destroy h # rest
           \<and> (\<forall>h'. Destroy h' \<notin> set rest)"
proof -
  obtain seg where "trace (initHls p' env (cleanup p s)) = trace (cleanup p s) @ seg"
    and "\<forall>h'. Destroy h' \<notin> set seg"
    using initHls_no_destroy by blast
  then show ?thesis
    using assms by (simp add: trace_cleanup)
qed

text \<open>
  Claim C1. In every state that the component reaches by mounting, updates, unmounting and
  events of hls.js, and at every point of the record of calls up to there, at most one
  hls.js instance is alive. When a dependency of the binding effect changes while an
  instance is stored, the calls of the update start with one \<open>destroy\<close> of that instance
  and contain no other \<open>destroy\<close>, so it precedes the construction of any new instance;
  unmounting makes exactly that one \<open>destroy\<close> call.
\<close>

theorem one_live_engine:
  assumes "c = run ts (initial refs)"
  shows "(\<forall>n. length (live (take n (trace (st c)))) \<le> 1)
       \<and> (\<forall>p seen h p' env.
             mounted c = Some (p, seen) \<longrightarrow> hlsRef (st c) = Some h \<longrightarrow> deps_changed p p' \<longrightarrow>
             (\<exists>rest. trace (st (step (Update p' env) c)) = trace (st c) @ Destroy h # rest
                      \<and> (\<forall>h'. Destroy h' \<notin> set rest)))
       \<and> (\<forall>p seen h.
             mounted c = Some (p, seen) \<longrightarrow> hlsRef (st c) = Some h \<longrightarrow>
             trace (st (step Unmount c)) = trace (st c) @ [Destroy h])"
proof (intro conjI allI impI)
  fix n
  show "length (live (take n (trace (st c)))) \<le> 1"
    unfolding assms by (rule live_take_reachable)
next
  fix p seen h p' env
  assume "mounted c = Some (p, seen)" and "hlsRef (st c) = Some h" and "deps_changed p p'"
  then show "\<exists>rest. trace (st (step (Update p' env) c)) = trace (st c) @ Destroy h # rest
                     \<and> (\<forall>h'. Destroy h' \<notin> set rest)"
    using trace_rebind [of "st c" h p' env p]
    by (simp add: Let_def video_ref_effect_fields)
next
  fix p seen h
  assume "mounted c = Some (p, seen)" and "hlsRef (st c) = Some h"
  then show "trace (st (step Unmount c)) = trace (st c) @ [Destroy h]"
    by (simp add: trace_cleanup)
qed

theorem one_live_engine_witness:
  "mounted mounted_example = Some (example_props ''a.m3u8'', None)
   \<and> hlsRef (st mounted_example) = Some 0
   \<and> deps_changed (example_props ''a.m3u8'') (example_props ''b.m3u8'')
   \<and> (\<exists>rest. trace (st (step (Update (example_props ''b.m3u8'') software) mounted_example)) =
                trace (st mounted_example) @ Destroy 0 # rest
              \<and> (\<forall>h'. Destroy h' \<notin> set rest))
   \<and> trace (st (step (Update (example_props ''b.m3u8'') software) mounted_example)) =
       trace (st mounted_example)
       @ [Destroy 0,
          NewHls 1 [''enableWorker'' \<mapsto> JBool True, ''lowLatencyMode'' \<mapsto> JBool False],
          HlsOn 1 MEDIA_ATTACHED, HlsOn 1 MANIFEST_PARSED, HlsOn 1 ERROR, HlsOn 1 LEVEL_SWITCHED,
          AttachMedia 1 7, LoadSource 1 ''b.m3u8'', OnHlsInit 1 1, OnHlsReady 2 1 7]
   \<and> trace (st (step Unmount mounted_example)) = trace (st mounted_example) @ [Destroy 0]
   \<and> length (live (take 11 (trace (st (step (Update (example_props ''b.m3u8'') software)
                                           mounted_example))))) \<le> 1"
proof -
  have m: "mounted mounted_example = Some (example_props ''a.m3u8'', None)"
    by (simp add: example_defs model_defs)
  have h: "hlsRef (st mounted_example) = Some 0"
    by (simp add: example_defs model_defs)
  have d: "deps_changed (example_props ''a.m3u8'') (example_props ''b.m3u8'')"
    by (simp add: example_defs model_defs)
  note t = one_live_engine [OF mounted_example_def]
  have r: "\<exists>rest. trace (st (step (Update (example_props ''b.m3u8'') software) mounted_example)) =
                trace (st mounted_example) @ Destroy 0 # rest
              \<and> (\<forall>h'. Destroy h' \<notin> set rest)"
    using t m h d by blast
  have u: "trace (st (step Unmount mounted_example)) = trace (st mounted_example) @ [Destroy 0]"
    using t m h by blast
  have e: "trace (st (step (Update (example_props ''b.m3u8'') software) mounted_example)) =
       trace (st mounted_example)
       @ [Destroy 0,
          NewHls 1 [''enableWorker'' \<mapsto> JBool True, ''lowLatencyMode'' \<mapsto> JBool False],
          HlsOn 1 MEDIA_ATTACHED, HlsOn 1 MANIFEST_PARSED, HlsOn 1 ERROR, HlsOn 1 LEVEL_SWITCHED,
          AttachMedia 1 7, LoadSource 1 ''b.m3u8'', OnHlsInit 1 1, OnHlsReady 2 1 7]"
    by (simp add: example_defs model_defs)
  have l: "length (live (take 11 (trace (st (step (Update (example_props ''b.m3u8'') software)
                                           mounted_example))))) \<le> 1"
    by (simp add: example_defs model_defs live_def)
  show ?thesis
    using m h d r u e l by blast
qed

section \<open>Recovery policy and forwarding of errors\<close>

text \<open>
  Claim C2. For every error event that hls.js emits on the bound instance in a reachable
  state, the calls made are: the one recovery action that the \<open>fatal\<close> flag and the error
  type select (\<open>startLoad\<close> for a fatal network error, \<open>recoverMediaError\<close> for a fatal media
  error, \<open>destroy\<close> for any other fatal error, nothing for a non-fatal error), and after it
  one call of \<open>onHlsError\<close>, when the caller supplied it, with the event name and the
  payload as emitted.
\<close>

theorem error_event_recovery_then_callback:
  assumes "c = run ts (initial refs)" and "hlsRef (st c) = Some h"
  shows "\<exists>p seen. mounted c = Some (p, seen)
           \<and> trace (st (step (Emit h (Error data) played) c)) =
               trace (st c)
               @ (if fatal data then
                    (case type data of
                       NETWORK_ERROR \<Rightarrow> [StartLoad h]
                     | MEDIA_ERROR \<Rightarrow> [RecoverMediaError h]
                     | _ \<Rightarrow> [Destroy h])
                  else [])
               @ (case onHlsError p of Some cb \<Rightarrow> [OnHlsError cb ERROR data] | None \<Rightarrow> [])"
proof -
  obtain p seen where m: "mounted c = Some (p, seen)"
    and t: "trigger h (Error data) played (st c) = handler p h played (Error data) (st c)"
    using trigger_reachable [OF assms] by blast
  have "trace (st (step (Emit h (Error data) played) c)) =
          trace (error_handler p h ERROR data (st c))"
    using t by simp
  then show ?thesis
    using m assms(2) by (simp add: error_handler_fields split: ErrorTypes.split)
qed

theorem error_event_recovery_then_callback_witness:
  "hlsRef (st mounted_example) = Some 0
   \<and> trace (st (step (Emit 0 (Error fatal_network) Fulfilled) mounted_example)) =
       trace (st mounted_example) @ [StartLoad 0, OnHlsError 3 ERROR fatal_network]"
proof -
  have h: "hlsRef (st mounted_example) = Some 0"
    by (simp add: example_defs model_defs)
  have m: "mounted mounted_example = Some (example_props ''a.m3u8'', None)"
    by (simp add: example_defs model_defs)
  have "trace (st (step (Emit 0 (Error fatal_network) Fulfilled) mounted_example)) =
       trace (st mounted_example) @ [StartLoad 0, OnHlsError 3 ERROR fatal_network]"
    using error_event_recovery_then_callback
            [OF mounted_example_def h, of fatal_network Fulfilled] m
    by (auto simp: fatal_network_def example_props_def)
  then show ?thesis
    using h by simp
qed

text \<open>
  Claim C3. The component is mounted with hls.js supported and no external ref; hls.js
  then emits a fatal error of type \<open>OTHER_ERROR\<close>. The instance is destroyed and the stored
  reference is cleared before \<open>onHlsError\<close> is called, but the handle is not reset: it still
  holds the video element and the destroyed instance.
\<close>

theorem fatal_other_error_keeps_handle:
  "hlsRef (st (step (Emit 0 (Error fatal_other) Fulfilled) mounted_example)) = None
   \<and> trace (st (step (Emit 0 (Error fatal_other) Fulfilled) mounted_example)) =
       trace (st mounted_example) @ [Destroy 0, OnHlsError 3 ERROR fatal_other]
   \<and> handle (example_props ''a.m3u8'')
        (st (step (Emit 0 (Error fatal_other) Fulfilled) mounted_example)) =
       \<lparr>video = Some 7, hls = Some 0\<rparr>"
  by (simp add: example_defs model_defs subscriptions_def)

section \<open>Teardown\<close>

text \<open>
  Claim C4. The cleanup of the binding effect, run in any state (so after \<open>initHls\<close> took any
  of its branches), leaves the handle (the external ref when the caller gave one, the
  internal one otherwise) with both fields absent and the stored instance reference absent;
  it calls \<open>destroy\<close> on the stored instance when there is one, and makes no other call.
\<close>

theorem cleanup_resets_handle:
  "handle p (cleanup p s) = \<lparr>video = None, hls = None\<rparr>
   \<and> hlsRef (cleanup p s) = None
   \<and> trace (cleanup p s) = trace s @ (case hlsRef s of Some h \<Rightarrow> [Destroy h] | None \<Rightarrow> [])"
  by (simp add: handle_def hlsRef_cleanup trace_cleanup)
     (simp add: cleanup_def Let_def split: option.split)

theorem cleanup_resets_handle_witness:
  "handle (example_props ''a.m3u8'') (cleanup (example_props ''a.m3u8'') (st mounted_example)) =
     \<lparr>video = None, hls = None\<rparr>
   \<and> trace (cleanup (example_props ''a.m3u8'') (st mounted_example)) =
       trace (st mounted_example) @ [Destroy 0]
   \<and> handle (example_props ''a.m3u8'')
       (cleanup (example_props ''a.m3u8'')
          (st (run [Mount (example_props ''a.m3u8'') 7 native] (initial no_refs)))) =
       \<lparr>video = None, hls = None\<rparr>
   \<and> handle (example_props ''a.m3u8'')
       (cleanup (example_props ''a.m3u8'')
          (st (run [Mount (example_props ''a.m3u8'') 7 unsupported] (initial no_refs)))) =
       \<lparr>video = None, hls = None\<rparr>"
proof -
  have h: "hlsRef (st mounted_example) = Some 0"
    by (simp add: example_defs model_defs)
  show ?thesis
    using cleanup_resets_handle [of "example_props ''a.m3u8''" "st mounted_example"]
      cleanup_resets_handle [of "example_props ''a.m3u8''"
        "st (run [Mount (example_props ''a.m3u8'') 7 native] (initial no_refs))"]
      cleanup_resets_handle [of "example_props ''a.m3u8''"
        "st (run [Mount (example_props ''a.m3u8'') 7 unsupported] (initial no_refs))"]
    by (simp add: h)
qed

section \<open>Autoplay\<close>

text \<open>
  Claim C5. In a reachable state with autoplay set, when hls.js emits the manifest-parsed
  event on the bound instance and the environment rejects the promise of \<open>play()\<close>: the
  calls made are \<open>play()\<close>, then \<open>onHlsManifestParsed\<close> with the payload of the event (when
  the caller supplied it), then the console message with the reason of the rejection; and
  no rejection is left unhandled.
\<close>

theorem autoplay_rejection_swallowed:
  assumes "c = run ts (initial refs)" and "hlsRef (st c) = Some h"
    and "mounted c = Some (p, seen)" and "autoPlay p = Some True"
    and "videoRef (st c) = Some v"
  shows "trace (st (step (Emit h (ManifestParsed data) (Rejected error)) c)) =
           trace (st c) @ [VideoPlay v]
           @ (case onHlsManifestParsed p of
                Some cb \<Rightarrow> [OnHlsManifestParsed cb data] | None \<Rightarrow> [])
           @ [ConsoleError ''Autoplay failed:'' [error]]
       \<and> unhandledRejections (st (step (Emit h (ManifestParsed data) (Rejected error)) c)) =
           unhandledRejections (st c)"
proof -
  obtain p' seen' where "mounted c = Some (p', seen')"
    and "trigger h (ManifestParsed data) (Rejected error) (st c) =
           handler p' h (Rejected error) (ManifestParsed data) (st c)"
    using trigger_reachable [OF assms(1,2)] by blast
  then have "st (step (Emit h (ManifestParsed data) (Rejected error)) c) =
          manifest_parsed_handler p (Rejected error) data (st c)"
    using assms(3) by simp
  then show ?thesis
    using manifest_parsed_handler_rejected [OF assms(4,5)] by simp
qed

theorem autoplay_rejection_swallowed_witness:
  "hlsRef (st mounted_example) = Some 0
   \<and> mounted mounted_example = Some (example_props ''a.m3u8'', None)
   \<and> autoPlay (example_props ''a.m3u8'') = Some True
   \<and> videoRef (st mounted_example) = Some 7
   \<and> trace (st (step (Emit 0 (ManifestParsed 9) (Rejected (JStr ''NotAllowedError'')))
                     mounted_example)) =
       trace (st mounted_example)
       @ [VideoPlay 7, OnHlsManifestParsed 5 9,
          ConsoleError ''Autoplay failed:'' [JStr ''NotAllowedError'']]
   \<and> unhandledRejections
        (st (step (Emit 0 (ManifestParsed 9) (Rejected (JStr ''NotAllowedError'')))
               mounted_example)) = []"
proof -
  have h: "hlsRef (st mounted_example) = Some 0"
    by (simp add: example_defs model_defs)
  have m: "mounted mounted_example = Some (example_props ''a.m3u8'', None)"
    by (simp add: example_defs model_defs)
  have a: "autoPlay (example_props ''a.m3u8'') = Some True"
    by (simp add: example_props_def)
  have v: "videoRef (st mounted_example) = Some 7"
    by (simp add: example_defs model_defs)
  have u: "unhandledRejections (st mounted_example) = []"
    by (simp add: example_defs model_defs)
  have c: "onHlsManifestParsed (example_props ''a.m3u8'') = Some 5"
    by (simp add: example_props_def)
  show ?thesis
    using autoplay_rejection_swallowed
            [OF mounted_example_def h m a v, of 9 "JStr ''NotAllowedError''"] h m a v
    by (simp add: u c)
qed

section \<open>Construction of the instance\<close>

text \<open>
  Claim C6. In the software branch, the first call of \<open>initHls\<close> constructs the instance,
  and no later call of it constructs another. When the caller passes a configuration
  object, the configuration of the instance has, under every key, the caller's value when
  the caller's object has the key, and otherwise the default: \<open>enableWorker\<close> true,
  \<open>lowLatencyMode\<close> false, nothing under any other key. When the caller passes no
  configuration object, or an empty one, it is exactly these two defaults.
\<close>

theorem engine_config_merged:
  assumes "videoRef s = Some v" and "isSupported env"
  shows "\<exists>config rest.
           trace (initHls p env s) = trace s @ NewHls (instances s) config # rest
         \<and> (\<forall>h c. NewHls h c \<notin> set rest)
         \<and> (\<forall>c k. hlsConfig p = Some c \<longrightarrow>
                config k =
                  (case entries c k of
                     Some x \<Rightarrow> Some x
                   | None \<Rightarrow>
                       [''enableWorker'' \<mapsto> JBool True, ''lowLatencyMode'' \<mapsto> JBool False] k))
         \<and> (\<forall>c. hlsConfig p = Some c \<longrightarrow> entries c = Map.empty \<longrightarrow>
                config = [''enableWorker'' \<mapsto> JBool True, ''lowLatencyMode'' \<mapsto> JBool False])
         \<and> (hlsConfig p = None \<longrightarrow>
                config = [''enableWorker'' \<mapsto> JBool True, ''lowLatencyMode'' \<mapsto> JBool False])"
proof (intro exI conjI allI impI)
  show "trace (initHls p env s) =
          trace s
          @ NewHls (instances s)
              ([''enableWorker'' \<mapsto> JBool True, ''lowLatencyMode'' \<mapsto> JBool False]
                 ++ hlsConfig_param p)
            # ([HlsOn (instances s) MEDIA_ATTACHED, HlsOn (instances s) MANIFEST_PARSED,
                HlsOn (instances s) ERROR, HlsOn (instances s) LEVEL_SWITCHED,
                AttachMedia (instances s) v, LoadSource (instances s) (src p)]
               @ (case onHlsInit p of Some cb \<Rightarrow> [OnHlsInit cb (instances s)] | None \<Rightarrow> [])
               @ (case onHlsReady p of
                    Some cb \<Rightarrow> [OnHlsReady cb (instances s) v] | None \<Rightarrow> []))"
    by (simp add: initHls_software(1) [OF assms])
next
  fix h c
  show "NewHls h c \<notin>
          set ([HlsOn (instances s) MEDIA_ATTACHED, HlsOn (instances s) MANIFEST_PARSED,
                HlsOn (instances s) ERROR, HlsOn (instances s) LEVEL_SWITCHED,
                AttachMedia (instances s) v, LoadSource (instances s) (src p)]
               @ (case onHlsInit p of Some cb \<Rightarrow> [OnHlsInit cb (instances s)] | None \<Rightarrow> [])
               @ (case onHlsReady p of
                    Some cb \<Rightarrow> [OnHlsReady cb (instances s) v] | None \<Rightarrow> []))"
    by (simp split: option.split)
next
  fix c k
  assume "hlsConfig p = Some c"
  then show "([''enableWorker'' \<mapsto> JBool True, ''lowLatencyMode'' \<mapsto> JBool False]
           ++ hlsConfig_param p) k =
          (case entries c k of
             Some x \<Rightarrow> Some x
           | None \<Rightarrow> [''enableWorker'' \<mapsto> JBool True, ''lowLatencyMode'' \<mapsto> JBool False] k)"
    by (simp add: hlsConfig_param_def map_add_def split: option.split)
next
  fix c
  assume "hlsConfig p = Some c" and "entries c = Map.empty"
  then show "[''enableWorker'' \<mapsto> JBool True, ''lowLatencyMode'' \<mapsto> JBool False]
               ++ hlsConfig_param p =
             [''enableWorker'' \<mapsto> JBool True, ''lowLatencyMode'' \<mapsto> JBool False]"
    by (simp add: hlsConfig_param_def)
next
  assume "hlsConfig p = None"
  then show "[''enableWorker'' \<mapsto> JBool True, ''lowLatencyMode'' \<mapsto> JBool False]
               ++ hlsConfig_param p =
             [''enableWorker'' \<mapsto> JBool True, ''lowLatencyMode'' \<mapsto> JBool False]"
    by (simp add: hlsConfig_param_def)
qed

theorem engine_config_merged_witness:
  "videoRef attached_example = Some 7
   \<and> isSupported software
   \<and> hlsConfig readme_props = Some readme_config
   \<and> hlsConfig (example_props ''a.m3u8'') = None
   \<and> (\<exists>config rest.
         trace (initHls readme_props software attached_example) = NewHls 0 config # rest
       \<and> config ''enableWorker'' = Some (JBool True)
       \<and> config ''lowLatencyMode'' = Some (JBool True)
       \<and> config ''backBufferLength'' = Some (JNum 90)
       \<and> config ''debug'' = None)
   \<and> (\<exists>rest.
         trace (initHls (example_props ''a.m3u8'') software attached_example) =
           NewHls 0 [''enableWorker'' \<mapsto> JBool True, ''lowLatencyMode'' \<mapsto> JBool False] # rest)"
proof -
  have v: "videoRef attached_example = Some 7"
    by (simp add: attached_example_def initial_def)
  have i: "isSupported software"
    by (simp add: software_def)
  have s: "trace attached_example = []" "instances attached_example = 0"
    by (simp_all add: attached_example_def initial_def)
  have c: "hlsConfig readme_props = Some readme_config"
    by (simp add: readme_props_def)
  have r: "entries readme_config ''enableWorker'' = Some (JBool True)"
    "entries readme_config ''lowLatencyMode'' = Some (JBool True)"
    "entries readme_config ''backBufferLength'' = Some (JNum 90)"
    "entries readme_config ''debug'' = None"
    by (simp_all add: readme_config_def)
  have e: "hlsConfig (example_props ''a.m3u8'') = None"
    by (simp add: example_props_def)
  obtain config rest where
    t: "trace (initHls readme_props software attached_example) = NewHls 0 config # rest"
    and "\<forall>c k. hlsConfig readme_props = Some c \<longrightarrow>
           config k =
             (case entries c k of
                Some x \<Rightarrow> Some x
              | None \<Rightarrow> [''enableWorker'' \<mapsto> JBool True, ''lowLatencyMode'' \<mapsto> JBool False] k)"
    using engine_config_merged [OF v i, of readme_props] by (auto simp: s)
  then have k: "\<And>k. config k =
             (case entries readme_config k of
                Some x \<Rightarrow> Some x
              | None \<Rightarrow> [''enableWorker'' \<mapsto> JBool True, ''lowLatencyMode'' \<mapsto> JBool False] k)"
    using c by blast
  have a: "\<exists>config rest.
         trace (initHls readme_props software attached_example) = NewHls 0 config # rest
       \<and> config ''enableWorker'' = Some (JBool True)
       \<and> config ''lowLatencyMode'' = Some (JBool True)
       \<and> config ''backBufferLength'' = Some (JNum 90)
       \<and> config ''debug'' = None"
    using t k [of "''enableWorker''"] k [of "''lowLatencyMode''"] k [of "''backBufferLength''"]
      k [of "''debug''"]
    by (simp add: r)
  have b: "\<exists>rest.
         trace (initHls (example_props ''a.m3u8'') software attached_example) =
           NewHls 0 [''enableWorker'' \<mapsto> JBool True, ''lowLatencyMode'' \<mapsto> JBool False] # rest"
    using engine_config_merged [OF v i, of "example_props ''a.m3u8''"] e
    by (auto simp: s)
  show ?thesis
    using v i c e a b by blast
qed

text \<open>
  Claim C7. In the software branch, \<open>initHls\<close> makes these calls and no others, in this
  order: the construction, the four subscriptions, \<open>attachMedia\<close>, \<open>loadSource\<close>, then
  \<open>onHlsInit\<close> with the instance and \<open>onHlsReady\<close> with the instance and the video element,
  each when the caller supplied it. The two callbacks depend on nothing else: they are the
  calls that directly follow \<open>loadSource\<close>, within \<open>initHls\<close>, before hls.js can emit any
  event.
\<close>

theorem init_and_ready_follow_load:
  assumes "videoRef s = Some v" and "isSupported env"
  shows "trace (initHls p env s) =
     trace s
     @ [NewHls (instances s)
          ([''enableWorker'' \<mapsto> JBool True, ''lowLatencyMode'' \<mapsto> JBool False]
             ++ hlsConfig_param p),
        HlsOn (instances s) MEDIA_ATTACHED, HlsOn (instances s) MANIFEST_PARSED,
        HlsOn (instances s) ERROR, HlsOn (instances s) LEVEL_SWITCHED]
     @ [AttachMedia (instances s) v, LoadSource (instances s) (src p)]
     @ (case onHlsInit p of Some cb \<Rightarrow> [OnHlsInit cb (instances s)] | None \<Rightarrow> [])
     @ (case onHlsReady p of Some cb \<Rightarrow> [OnHlsReady cb (instances s) v] | None \<Rightarrow> [])"
  by (simp add: initHls_software(1) [OF assms])

theorem init_and_ready_follow_load_witness:
  "videoRef attached_example = Some 7
   \<and> isSupported software
   \<and> trace (initHls (example_props ''a.m3u8'') software attached_example) =
       [NewHls 0 [''enableWorker'' \<mapsto> JBool True, ''lowLatencyMode'' \<mapsto> JBool False],
        HlsOn 0 MEDIA_ATTACHED, HlsOn 0 MANIFEST_PARSED, HlsOn 0 ERROR, HlsOn 0 LEVEL_SWITCHED,
        AttachMedia 0 7, LoadSource 0 ''a.m3u8'', OnHlsInit 1 0, OnHlsReady 2 0 7]
   \<and> trace (st mounted_example) =
       [NewHls 0 [''enableWorker'' \<mapsto> JBool True, ''lowLatencyMode'' \<mapsto> JBool False],
        HlsOn 0 MEDIA_ATTACHED, HlsOn 0 MANIFEST_PARSED, HlsOn 0 ERROR, HlsOn 0 LEVEL_SWITCHED,
        AttachMedia 0 7, LoadSource 0 ''a.m3u8'', OnHlsInit 1 0, OnHlsReady 2 0 7]"
proof -
  have v: "videoRef attached_example = Some 7"
    by (simp add: attached_example_def initial_def)
  have i: "isSupported software"
    by (simp add: software_def)
  have s: "trace attached_example = []" "instances attached_example = 0"
    by (simp_all add: attached_example_def initial_def)
  have a: "trace (initHls (example_props ''a.m3u8'') software attached_example) =
       [NewHls 0 [''enableWorker'' \<mapsto> JBool True, ''lowLatencyMode'' \<mapsto> JBool False],
        HlsOn 0 MEDIA_ATTACHED, HlsOn 0 MANIFEST_PARSED, HlsOn 0 ERROR, HlsOn 0 LEVEL_SWITCHED,
        AttachMedia 0 7, LoadSource 0 ''a.m3u8'', OnHlsInit 1 0, OnHlsReady 2 0 7]"
    using init_and_ready_follow_load [OF v i, of "example_props ''a.m3u8''"]
    by (simp add: s example_props_def hlsConfig_param_def)
  have m: "trace (st mounted_example) =
       [NewHls 0 [''enableWorker'' \<mapsto> JBool True, ''lowLatencyMode'' \<mapsto> JBool False],
        HlsOn 0 MEDIA_ATTACHED, HlsOn 0 MANIFEST_PARSED, HlsOn 0 ERROR, HlsOn 0 LEVEL_SWITCHED,
        AttachMedia 0 7, LoadSource 0 ''a.m3u8'', OnHlsInit 1 0, OnHlsReady 2 0 7]"
    by (simp add: example_defs model_defs)
  show ?thesis
    using v i a m by blast
qed

section \<open>Binding without hls.js\<close>

text \<open>
  Claim C8, as stated, fails when the component mounts: with neither hls.js nor native
  playback supported, the handle is not absent/absent after the mount, because the second
  effect has put the video element into it.
\<close>

theorem unsupported_mount_handle_counterexample:
  "handle (example_props ''a.m3u8'')
     (st (run [Mount (example_props ''a.m3u8'') 7 unsupported] (initial no_refs))) \<noteq>
     \<lparr>video = None, hls = None\<rparr>
   \<and> handle (example_props ''a.m3u8'')
       (st (run [Mount (example_props ''a.m3u8'') 7 unsupported] (initial no_refs))) =
       \<lparr>video = Some 7, hls = None\<rparr>"
  by (simp add: example_defs model_defs)

text \<open>
  Claim C8, amended. When hls.js is not supported, \<open>initHls\<close> makes one call: it assigns
  the source to the video element when that can play the stream natively, and logs the
  capability error otherwise. It constructs no instance and stores none, and it writes
  neither the external nor the internal handle. The second effect, when it runs after it
  (as it does on mount), sets the handle's video field to the video element and leaves
  the handle's hls field as it was.
\<close>

theorem bind_without_software:
  assumes "\<not> isSupported env" and "videoRef s = Some v"
  shows "trace (initHls p env s) =
           trace s
           @ [if canPlayType env ''application/vnd.apple.mpegurl'' \<noteq> []
              then VideoSetSrc v (src p)
              else ConsoleError ''HLS is not supported in this browser'' []]
       \<and> hlsRef (initHls p env s) = hlsRef s
       \<and> instances (initHls p env s) = instances s
       \<and> playerRefs (initHls p env s) = playerRefs s
       \<and> internalPlayerRef (initHls p env s) = internalPlayerRef s
       \<and> hls (handle p (video_ref_effect p (initHls p env s))) = hls (handle p s)
       \<and> video (handle p (video_ref_effect p (initHls p env s))) = Some v"
  unfolding initHls_without_software [OF assms]
  using assms(2)
  by (simp add: emit_fields video_ref_effect_def handle_def split: option.split)

theorem bind_without_software_witness:
  "\<not> isSupported unsupported \<and> \<not> isSupported native
   \<and> videoRef attached_example = Some 7
   \<and> trace (initHls (example_props ''a.m3u8'') unsupported attached_example) =
       [ConsoleError ''HLS is not supported in this browser'' []]
   \<and> trace (initHls (example_props ''a.m3u8'') native attached_example) =
       [VideoSetSrc 7 ''a.m3u8'']
   \<and> hlsRef (initHls (example_props ''a.m3u8'') unsupported attached_example) = None
   \<and> instances (initHls (example_props ''a.m3u8'') unsupported attached_example) = 0
   \<and> internalPlayerRef (initHls (example_props ''a.m3u8'') unsupported attached_example) =
       \<lparr>video = None, hls = None\<rparr>
   \<and> hls (handle (example_props ''a.m3u8'')
            (video_ref_effect (example_props ''a.m3u8'')
               (initHls (example_props ''a.m3u8'') native attached_example))) = None
   \<and> video (handle (example_props ''a.m3u8'')
              (video_ref_effect (example_props ''a.m3u8'')
                 (initHls (example_props ''a.m3u8'') unsupported attached_example))) = Some 7"
proof -
  have u: "\<not> isSupported unsupported" and n: "\<not> isSupported native"
    by (simp_all add: unsupported_def native_def)
  have v: "videoRef attached_example = Some 7"
    by (simp add: attached_example_def initial_def)
  have s: "trace attached_example = []" "instances attached_example = 0"
    "hlsRef attached_example = None"
    "internalPlayerRef attached_example = \<lparr>video = None, hls = None\<rparr>"
    "handle (example_props ''a.m3u8'') attached_example = \<lparr>video = None, hls = None\<rparr>"
    by (simp_all add: attached_example_def initial_def handle_def example_props_def)
  have c: "canPlayType unsupported ''application/vnd.apple.mpegurl'' = []"
    "canPlayType native ''application/vnd.apple.mpegurl'' = ''maybe''"
    "src (example_props ''a.m3u8'') = ''a.m3u8''"
    by (simp_all add: unsupported_def native_def example_props_def)
  show ?thesis
    using bind_without_software [OF u v, of "example_props ''a.m3u8''"]
      bind_without_software [OF n v, of "example_props ''a.m3u8''"] u n v
    by (simp add: s c)
qed

section \<open>The rendered element\<close>

text \<open>
  Claim C9, as stated, fails: when the caller passes \<open>controls={false}\<close>, the rendered
  video element has \<open>controls\<close> false, since the spread of the rest props comes after
  \<open>controls={true}\<close>.
\<close>

theorem controls_not_forced_counterexample:
  "attributes (HlsPlayer controls_off_props) ''controls'' \<noteq> Some (JBool True)
   \<and> attributes (HlsPlayer controls_off_props) ''controls'' = Some (JBool False)"
  by (simp add: HlsPlayer_def controls_off_props_def example_props_def)

text \<open>
  Claim C9, amended. The rendered element is a video element that has every pass-through
  attribute with the caller's value; \<open>controls\<close> is on when the caller does not pass
  \<open>controls\<close>, and it has no other attribute.
\<close>

theorem rendered_attributes:
  "tag (HlsPlayer p) = ''video''
   \<and> attributes (HlsPlayer p) k =
       (case props p k of
          Some x \<Rightarrow> Some x
        | None \<Rightarrow> if k = ''controls'' then Some (JBool True) else None)"
  by (simp add: HlsPlayer_def map_add_def split: option.split)

theorem rendered_attributes_witness:
  "attributes (HlsPlayer (example_props ''a.m3u8'')) ''controls'' = Some (JBool True)
   \<and> attributes (HlsPlayer controls_off_props) ''controls'' = Some (JBool False)
   \<and> attributes (HlsPlayer controls_off_props) ''width'' = Some (JStr ''100%'')
   \<and> attributes (HlsPlayer controls_off_props) ''src'' = None"
  using rendered_attributes [of "example_props ''a.m3u8''" "''controls''"]
    rendered_attributes [of controls_off_props "''controls''"]
    rendered_attributes [of controls_off_props "''width''"]
    rendered_attributes [of controls_off_props "''src''"]
  by (simp add: controls_off_props_def example_props_def)

section \<open>Idempotence of engine teardown\<close>

text \<open>
  Claim C10. \<open>destroyHls\<close> is total and idempotent: when no hls.js instance is stored it
  changes nothing (no call is made, the stored reference stays absent), it always leaves the
  stored reference absent, and running it twice in a row is the same as running it once.
\<close>

theorem destroyHls_idempotent:
  "(hlsRef s = None \<longrightarrow> destroyHls s = s)
   \<and> hlsRef (destroyHls s) = None
   \<and> destroyHls (destroyHls s) = destroyHls s"
  by (simp add: destroyHls_absent hlsRef_destroyHls)

theorem destroyHls_idempotent_witness:
  "hlsRef attached_example = None
   \<and> destroyHls attached_example = attached_example
   \<and> hlsRef (st mounted_example) = Some 0
   \<and> hlsRef (destroyHls (st mounted_example)) = None
   \<and> destroyHls (destroyHls (st mounted_example)) = destroyHls (st mounted_example)
   \<and> trace (destroyHls (destroyHls (st mounted_example))) =
       trace (st mounted_example) @ [Destroy 0]"
proof -
  have a: "hlsRef attached_example = None"
    by (simp add: attached_example_def initial_def)
  have h: "hlsRef (st mounted_example) = Some 0"
    by (simp add: example_defs model_defs)
  have t: "trace (destroyHls (st mounted_example)) = trace (st mounted_example) @ [Destroy 0]"
    by (simp add: trace_destroyHls h)
  show ?thesis
    using destroyHls_idempotent [of attached_example]
      destroyHls_idempotent [of "st mounted_example"] a h t
    by simp
qed

end
